theory Spec2Isabelle
  imports Main "HOL-Library.Word"
begin

section \<open>Go library functions used by the sources\<close>

text \<open>
  Go strings are byte sequences; they are modelled as \<open>string\<close> (a list of 8-bit
  characters).  The functions of the packages \<open>strings\<close> and \<open>strconv\<close> that the
  sources call are modelled after their documented behaviour.
\<close>

datatype error =
    ErrSyntax            \<comment> \<open>\<open>strconv.ErrSyntax\<close>\<close>
  | ErrRange             \<comment> \<open>\<open>strconv.ErrRange\<close>\<close>
  | EOF                  \<comment> \<open>\<open>io.EOF\<close>\<close>
  | ErrNotExist          \<comment> \<open>\<open>os.ErrNotExist\<close>\<close>
  | SliceBounds          \<comment> \<open>the run-time panic "slice bounds out of range"\<close>
  | MalformedInput       \<comment> \<open>a pass's failure: the IR breaks an invariant the pass assumes\<close>
  | UnsupportedConstruct \<comment> \<open>a pass's failure: the lowering cannot express the input\<close>
  | ErrOther string      \<comment> \<open>any other error value\<close>

definition newline :: char where
  "newline = CHR 0x0A"

definition carriage_return :: char where
  "carriage_return = CHR 0x0D"

text \<open>\<open>strings.Split(s, sep)\<close> for a separator of one byte: always at least one piece.\<close>

function strings_Split :: "string \<Rightarrow> char \<Rightarrow> string list" where
  "strings_Split s sep =
     takeWhile (\<lambda>c. c \<noteq> sep) s #
       (case dropWhile (\<lambda>c. c \<noteq> sep) s of
          [] \<Rightarrow> []
        | _ # rest \<Rightarrow> strings_Split rest sep)"
  by pat_completeness auto
termination
proof (relation "measure (\<lambda>(s, sep). length s)")
  show "wf (measure (\<lambda>(s, sep). length s))" by simp
next
  fix s :: string and sep x21 x22
  assume "dropWhile (\<lambda>c. c \<noteq> sep) s = x21 # x22"
  then have "length (x21 # x22) \<le> length s"
    by (metis length_dropWhile_le)
  then show "((x22, sep), (s, sep)) \<in> measure (\<lambda>(s, sep). length s)"
    by simp
qed

declare strings_Split.simps [simp del]

text \<open>\<open>strings.TrimRight(s, cutset)\<close>: drop the trailing bytes that are in the cutset.\<close>

definition strings_TrimRight :: "string \<Rightarrow> string \<Rightarrow> string" where
  "strings_TrimRight s cutset = rev (dropWhile (\<lambda>c. c \<in> set cutset) (rev s))"

definition strings_HasPrefix :: "string \<Rightarrow> string \<Rightarrow> bool" where
  "strings_HasPrefix s pre = (take (length pre) s = pre)"

text \<open>
  \<open>strings.Index(s, substr)\<close>: the index of the first occurrence of \<open>substr\<close> in
  \<open>s\<close>, or \<open>-1\<close>.
\<close>

fun strings_Index :: "string \<Rightarrow> string \<Rightarrow> int" where
  "strings_Index [] substr = (if substr = [] then 0 else - 1)"
| "strings_Index (c # cs) substr =
     (if strings_HasPrefix (c # cs) substr then 0
      else (let r = strings_Index cs substr in if r < 0 then - 1 else r + 1))"

definition isDigit :: "char \<Rightarrow> bool" where
  "isDigit c = (c \<in> set ''0123456789'')"

definition digitVal :: "char \<Rightarrow> int" where
  "digitVal c = int (of_char c) - 48"

text \<open>
  \<open>strconv.Atoi\<close> for a 64-bit \<open>int\<close>: an optional sign, then at least one decimal
  digit and nothing else; a value outside the range of \<open>int\<close> is an error.
\<close>

definition decimalValue :: "string \<Rightarrow> int" where
  "decimalValue ds = foldl (\<lambda>n c. 10 * n + digitVal c) 0 ds"

definition strconv_Atoi :: "string \<Rightarrow> error + int" where
  "strconv_Atoi s =
     (let neg = (s \<noteq> [] \<and> hd s = CHR ''-'');
          ds = (if s \<noteq> [] \<and> (hd s = CHR ''-'' \<or> hd s = CHR ''+'') then tl s else s)
      in if ds = [] \<or> \<not> list_all isDigit ds then Inl ErrSyntax
         else (let n = (if neg then - decimalValue ds else decimalValue ds)
               in if n < - (2 ^ 63) \<or> 2 ^ 63 \<le> n then Inl ErrRange else Inr n))"

section \<open>The regular expressions of the test helpers\<close>

text \<open>
  \<open>alignRegexp = regexp.MustCompile(", align [0-9]+$")\<close>.  The pattern is anchored at
  the end of the text, so a line matches when its longest run of trailing digits is not
  empty and is preceded by \<open>", align "\<close>; there is at most one match, and
  \<open>ReplaceAllString(line, "")\<close> removes it.
\<close>

definition alignRegexp_MatchString :: "string \<Rightarrow> bool" where
  "alignRegexp_MatchString line =
     (let r = rev line
      in takeWhile isDigit r \<noteq> [] \<and>
         take 8 (dropWhile isDigit r) = rev '', align '')"

definition alignRegexp_ReplaceAllString :: "string \<Rightarrow> string" where
  "alignRegexp_ReplaceAllString line =
     (if alignRegexp_MatchString line
      then rev (drop 8 (dropWhile isDigit (rev line)))
      else line)"

text \<open>
  \<open>regexp.MustCompile(` %[0-9]+(\)|,)`).ReplaceAllString(line, "$1")\<close>: every
  leftmost non-overlapping occurrence of a space, a percent sign, one or more digits and
  then a closing parenthesis or a comma is replaced by that last character.
\<close>

definition paramMatch :: "string \<Rightarrow> (char \<times> string) option" where
  "paramMatch s =
     (case s of
        c1 # c2 # r \<Rightarrow>
          (if c1 = CHR '' '' \<and> c2 = CHR ''%'' \<and> takeWhile isDigit r \<noteq> [] then
             (case dropWhile isDigit r of
                [] \<Rightarrow> None
              | g # rest \<Rightarrow> if g = CHR '')'' \<or> g = CHR '','' then Some (g, rest) else None)
           else None)
      | _ \<Rightarrow> None)"

lemma paramMatch_shorter: "paramMatch s = Some (g, rest) \<Longrightarrow> length rest < length s"
proof -
  assume a: "paramMatch s = Some (g, rest)"
  then obtain c1 c2 r where s: "s = c1 # c2 # r"
    by (auto simp: paramMatch_def split: list.splits)
  with a have "dropWhile isDigit r = g # rest"
    by (auto simp: paramMatch_def split: list.splits if_splits)
  then have "length (g # rest) \<le> length r"
    by (metis length_dropWhile_le)
  with s show ?thesis by simp
qed

function paramRegexp_ReplaceAllString :: "string \<Rightarrow> string" where
  "paramRegexp_ReplaceAllString [] = []"
| "paramRegexp_ReplaceAllString (c # cs) =
     (case paramMatch (c # cs) of
        Some (g, rest) \<Rightarrow> g # paramRegexp_ReplaceAllString rest
      | None \<Rightarrow> c # paramRegexp_ReplaceAllString cs)"
  by pat_completeness auto
termination
  by (relation "measure length") (auto dest: paramMatch_shorter)

section \<open>The fuzzy comparison of LLVM IR (transform test helpers)\<close>

text \<open>
  \<open>llvm.Version\<close> is a constant of the LLVM bindings; it is a parameter \<open>ver\<close> of
  the model.  \<open>filterIrrelevantIRLines\<close> panics when its major version is not a
  number: the panic is the \<open>Inl\<close> branch.
\<close>

definition llvmVersion :: "string \<Rightarrow> error + int" where
  "llvmVersion ver = strconv_Atoi (hd (strings_Split ver CHR ''.''))"

text \<open>The body of the loop over the lines; \<open>out\<close> is the slice being appended to.\<close>

fun filterLoop :: "int \<Rightarrow> string list \<Rightarrow> string list \<Rightarrow> string list" where
  "filterLoop v out [] = out"
| "filterLoop v out (line # rest) =
     (let line = hd (strings_Split line CHR '';'');
          line = strings_TrimRight line [carriage_return, CHR '' '']
      in if line = [] then filterLoop v out rest
         else if strings_HasPrefix line ''source_filename = '' then filterLoop v out rest
         else if v < 10 \<and> strings_HasPrefix line ''attributes '' then filterLoop v out rest
         else (let line = (if v < 10 \<and> strings_HasPrefix line ''define ''
                           then paramRegexp_ReplaceAllString line else line)
               in filterLoop v (out @ [line]) rest))"

definition filterIrrelevantIRLines :: "string \<Rightarrow> string list \<Rightarrow> error + string list" where
  "filterIrrelevantIRLines ver lines =
     (case llvmVersion ver of
        Inl err \<Rightarrow> Inl err
      | Inr v \<Rightarrow> Inr (filterLoop v [] lines))"

text \<open>
  The loop \<open>for i, line1 := range lines1\<close> of \<open>fuzzyEqualIR\<close>, reading \<open>lines2[i]\<close>.
  It runs only after the two lengths were found equal, so the index is in range.
\<close>

fun compareLoop :: "string list \<Rightarrow> nat \<Rightarrow> string list \<Rightarrow> bool" where
  "compareLoop lines2 i [] = True"
| "compareLoop lines2 i (line1 # rest) =
     (let line2 = lines2 ! i;
          match1 = alignRegexp_MatchString line1;
          match2 = alignRegexp_MatchString line2;
          line1' = (if match1 \<noteq> match2 then alignRegexp_ReplaceAllString line1 else line1);
          line2' = (if match1 \<noteq> match2 then alignRegexp_ReplaceAllString line2 else line2)
      in if line1' \<noteq> line2' then False else compareLoop lines2 (Suc i) rest)"

definition fuzzyEqualIR :: "string \<Rightarrow> string \<Rightarrow> string \<Rightarrow> error + bool" where
  "fuzzyEqualIR ver s1 s2 =
     (case filterIrrelevantIRLines ver (strings_Split s1 newline) of
        Inl err \<Rightarrow> Inl err
      | Inr lines1 \<Rightarrow>
          (case filterIrrelevantIRLines ver (strings_Split s2 newline) of
             Inl err \<Rightarrow> Inl err
           | Inr lines2 \<Rightarrow>
               Inr (if length lines1 \<noteq> length lines2 then False
                    else compareLoop lines2 0 lines1)))"

subsection \<open>The comparison as the specification words it\<close>

text \<open>
  The alignment rule for one pair of lines: when exactly one of the two lines ends with
  the annotation, it is removed from both before they are tested for equality.
\<close>

definition equal_up_to_align :: "string \<Rightarrow> string \<Rightarrow> bool" where
  "equal_up_to_align a b =
     (if alignRegexp_MatchString a \<noteq> alignRegexp_MatchString b
      then alignRegexp_ReplaceAllString a = alignRegexp_ReplaceAllString b
      else a = b)"

text \<open>
  The filter in the words of the specification: comment text is dropped (everything
  from the first \<open>;\<close> of a line), then blank lines (nothing but spaces and carriage
  returns) and the lines that begin with \<open>source_filename = \<close> are dropped.
\<close>

definition blankLine :: "string \<Rightarrow> bool" where
  "blankLine l = list_all (\<lambda>c. c = CHR '' '' \<or> c = carriage_return) l"

definition spec_filter :: "string list \<Rightarrow> string list" where
  "spec_filter lines =
     filter (\<lambda>l. \<not> blankLine l \<and> \<not> strings_HasPrefix l ''source_filename = '')
       (map (takeWhile (\<lambda>c. c \<noteq> CHR '';'')) lines)"

definition spec_fuzzyEqual :: "string \<Rightarrow> string \<Rightarrow> bool" where
  "spec_fuzzyEqual s1 s2 =
     (let lines1 = spec_filter (strings_Split s1 newline);
          lines2 = spec_filter (strings_Split s2 newline)
      in length lines1 = length lines2 \<and>
         (\<forall>i < length lines1. equal_up_to_align (lines1 ! i) (lines2 ! i)))"

text \<open>
  The filter as the code has it: after the comment text, trailing spaces and carriage
  returns are removed as well; with an LLVM major version below 10, lines that begin
  with \<open>attributes \<close> are dropped too, and numbered parameters are removed from the
  lines that begin with \<open>define \<close>.
\<close>

definition cleanLine :: "string \<Rightarrow> string" where
  "cleanLine line =
     strings_TrimRight (takeWhile (\<lambda>c. c \<noteq> CHR '';'') line) [carriage_return, CHR '' '']"

definition keptLine :: "int \<Rightarrow> string \<Rightarrow> bool" where
  "keptLine v l =
     (l \<noteq> [] \<and> \<not> strings_HasPrefix l ''source_filename = '' \<and>
      \<not> (v < 10 \<and> strings_HasPrefix l ''attributes ''))"

definition rewriteLine :: "int \<Rightarrow> string \<Rightarrow> string" where
  "rewriteLine v l =
     (if v < 10 \<and> strings_HasPrefix l ''define '' then paramRegexp_ReplaceAllString l else l)"

definition amended_filter :: "int \<Rightarrow> string list \<Rightarrow> string list" where
  "amended_filter v lines = map (rewriteLine v) (filter (keptLine v) (map cleanLine lines))"

definition amended_fuzzyEqual :: "int \<Rightarrow> string \<Rightarrow> string \<Rightarrow> bool" where
  "amended_fuzzyEqual v s1 s2 =
     (let lines1 = amended_filter v (strings_Split s1 newline);
          lines2 = amended_filter v (strings_Split s2 newline)
      in length lines1 = length lines2 \<and>
         (\<forall>i < length lines1. equal_up_to_align (lines1 ! i) (lines2 ! i)))"

section \<open>The golden test harness: \<open>testTransform\<close>\<close>

text \<open>
  The harness works on the file system and on an LLVM module.  The file system is a
  record: what reading a path yields, and the error, if any, that writing a path meets.
  Of LLVM the model takes two parameters: \<open>parseIR\<close> (\<open>ctx.ParseIR\<close> on the text of
  a buffer) and \<open>modString\<close> (\<open>mod.String()\<close>); the transform mutates the module
  in place and is a function here.  The flag \<open>-update\<close> is the parameter
  \<open>update\<close>.  The call \<open>os.Stat(pathPrefix + ".ll")\<close> discards its results and has
  no part in the model.  A write that fails is taken to leave the files as they were.
\<close>

record filesystem =
  read_file :: "string \<Rightarrow> error + string"
  write_error :: "string \<Rightarrow> error option"

definition ioutil_ReadFile :: "filesystem \<Rightarrow> string \<Rightarrow> error + string" where
  "ioutil_ReadFile fs name = read_file fs name"

definition ioutil_WriteFile :: "filesystem \<Rightarrow> string \<Rightarrow> string \<Rightarrow> error option \<times> filesystem" where
  "ioutil_WriteFile fs name data =
     (case write_error fs name of
        Some err \<Rightarrow> (Some err, fs)
      | None \<Rightarrow> (None, fs\<lparr>read_file := (read_file fs)(name := Inr data)\<rparr>))"

text \<open>The state of a \<open>*testing.T\<close>: the failure mark and what was logged.\<close>

datatype message =
    CouldNotReadFile string error
  | CouldNotLoadModule error
  | FailedToWriteOutput error
  | CouldNotReadOutputFile string error
  | OutputDoesNotMatch string

record testing_T =
  failed :: bool
  logged :: "message list"

text \<open>
  How a test function ends: it returns, it is stopped by \<open>t.FailNow\<close> (which
  \<open>t.Fatalf\<close> calls), or it panics.
\<close>

datatype completion = Returned | FailedNow | Panicked error

definition t_Logf :: "testing_T \<Rightarrow> message \<Rightarrow> testing_T" where
  "t_Logf t msg = t\<lparr>logged := logged t @ [msg]\<rparr>"

definition t_Fail :: "testing_T \<Rightarrow> testing_T" where
  "t_Fail t = t\<lparr>failed := True\<rparr>"

definition t_Error :: "testing_T \<Rightarrow> message \<Rightarrow> testing_T" where
  "t_Error t msg = t_Fail (t_Logf t msg)"

definition t_Fatalf :: "testing_T \<Rightarrow> message \<Rightarrow> completion \<times> testing_T" where
  "t_Fatalf t msg = (FailedNow, t_Fail (t_Logf t msg))"

definition testTransform ::
  "bool \<Rightarrow> string \<Rightarrow> (string \<Rightarrow> error + 'm) \<Rightarrow> ('m \<Rightarrow> string) \<Rightarrow>
   filesystem \<Rightarrow> testing_T \<Rightarrow> string \<Rightarrow> ('m \<Rightarrow> 'm) \<Rightarrow>
   (completion \<times> testing_T) \<times> filesystem" where
  "testTransform update ver parseIR modString fs t pathPrefix transform =
     (case read_file fs (pathPrefix @ ''.ll'') of
        Inl err \<Rightarrow> (t_Fatalf t (CouldNotReadFile (pathPrefix @ ''.ll'') err), fs)
      | Inr buf \<Rightarrow>
          (case parseIR buf of
             Inl err \<Rightarrow> (t_Fatalf t (CouldNotLoadModule err), fs)
           | Inr md \<Rightarrow>
               (let md = transform md;
                    actual = modString md;
                    actual = drop (nat (strings_Index actual (newline # ''target datalayout = '') + 1)) actual
                in if update then
                     (case ioutil_WriteFile fs (pathPrefix @ ''.out.ll'') actual of
                        (Some err, fs') \<Rightarrow> ((Returned, t_Error t (FailedToWriteOutput err)), fs')
                      | (None, fs') \<Rightarrow> ((Returned, t), fs'))
                   else
                     (case ioutil_ReadFile fs (pathPrefix @ ''.out.ll'') of
                        Inl err \<Rightarrow>
                          (t_Fatalf t (CouldNotReadOutputFile (pathPrefix @ ''.out.ll'') err), fs)
                      | Inr expected \<Rightarrow>
                          (case fuzzyEqualIR ver expected actual of
                             Inl err \<Rightarrow> ((Panicked err, t), fs)
                           | Inr eq \<Rightarrow>
                               if \<not> eq then ((Returned, t_Fail (t_Logf t (OutputDoesNotMatch actual))), fs)
                               else ((Returned, t), fs))))))"

section \<open>\<open>os.ReadFile\<close>\<close>



text \<open>The conversion of an integer value to an \<open>int\<close> of \<open>bits\<close> bits (two's complement).\<close>

definition toInt :: "nat \<Rightarrow> int \<Rightarrow> int" where
  "toInt bits x = signed_take_bit (bits - 1) x"

text \<open>
  The capacity that \<open>ReadFile\<close> asks for: the size that \<open>Stat\<close> reports, when it
  fits an \<open>int\<close>, plus one (the increment wraps around), and at least 512.
\<close>

definition initialSize :: "nat \<Rightarrow> error + 64 word \<Rightarrow> int" where
  "initialSize bits st =
     (let size = (case st of
                    Inl err \<Rightarrow> 0
                  | Inr size64 \<Rightarrow>
                      if toInt bits (sint size64) = sint size64 then toInt bits (sint size64) else 0);
          size = toInt bits (size + 1)
      in if size < 512 then 512 else size)"









section \<open>Whole-Program Dead-Code Elimination\<close>

text \<open>
  The pass (section 4.6 of the specification) is not among the source files covered
  here; the definitions of this section are written from the specification.
\<close>

type_synonym symbol = string

text \<open>
  Modelled from the spec: the pass Dead-Code Elimination is missing from the sources.
  Here: the Module as Dead-Code Elimination sees it.  Every function or global that the
  module defines comes with the symbols it refers to (calls and references to globals);
  the declared entry
  points are the program entry, the interrupt and exception handlers and the exported
  symbols; the Interface Method Table maps a method to its pairs of a concrete type and
  an implementation function, as Interface Lowering left it.
\<close>

record dce_module =
  definitions :: "(symbol \<times> symbol list) list"
  entry_points :: "symbol list"
  method_table :: "(string \<times> (string \<times> symbol) list) list"

text \<open>
  Modelled from the spec: the pass Dead-Code Elimination is missing from the sources.
  Here: the symbols that the module defines.
\<close>

definition defined :: "dce_module \<Rightarrow> symbol set" where
  "defined m = fst ` set (definitions m)"

text \<open>
  Modelled from the spec: the pass Dead-Code Elimination is missing from the sources.
  Here: the edges of "the call graph and global references"; a symbol
  that the module does not define refers to nothing.
\<close>

definition references :: "dce_module \<Rightarrow> symbol \<Rightarrow> symbol list" where
  "references m s = (case map_of (definitions m) s of None \<Rightarrow> [] | Some refs \<Rightarrow> refs)"

text \<open>
  Modelled from the spec: the pass Dead-Code Elimination is missing from the sources.
  Here: the starting points of the pass, "declared entry points and
  every surviving Interface Method Table entry".
\<close>

definition roots :: "dce_module \<Rightarrow> symbol list" where
  "roots m = entry_points m @ concat (map (\<lambda>(name, impls). map snd impls) (method_table m))"

text \<open>
  Modelled from the spec: the pass Dead-Code Elimination is missing from the sources.
  Here: "compute transitive reachability", as a work list of symbols
  still to visit and the list of the defined symbols reached so far.
\<close>

function mark :: "dce_module \<Rightarrow> symbol list \<Rightarrow> symbol list \<Rightarrow> symbol list" where
  "mark m [] marked = marked"
| "mark m (s # work) marked =
     (if s \<in> set marked \<or> s \<notin> defined m then mark m work marked
      else mark m (references m s @ work) (s # marked))"
  by pat_completeness auto
termination
proof (relation "measures [\<lambda>(m, work, marked). card (defined m - set marked),
                           \<lambda>(m, work, marked). length work]")
  show "wf (measures [\<lambda>(m, work, marked). card (defined m - set marked),
                           \<lambda>(m, work, marked). length work])"
    by simp
next
  fix m :: dce_module and s work marked
  assume "s \<in> set marked \<or> s \<notin> defined m"
  then show "((m, work, marked), (m, s # work, marked)) \<in>
      measures [\<lambda>(m, work, marked). card (defined m - set marked),
                \<lambda>(m, work, marked). length work]"
    by simp
next
  fix m :: dce_module and s work marked
  assume a: "\<not> (s \<in> set marked \<or> s \<notin> defined m)"
  have "finite (defined m)"
    by (simp add: defined_def)
  moreover have "defined m - set (s # marked) \<subset> defined m - set marked"
    using a by auto
  ultimately have "card (defined m - set (s # marked)) < card (defined m - set marked)"
    by (simp add: psubset_card_mono)
  then show "((m, references m s @ work, s # marked), (m, s # work, marked)) \<in>
      measures [\<lambda>(m, work, marked). card (defined m - set marked),
                \<lambda>(m, work, marked). length work]"
    by simp
qed

text \<open>
  Modelled from the spec: the pass Dead-Code Elimination is missing from the sources.
  Here: the pass, "drop everything unreached".
\<close>

definition DeadCodeElimination :: "dce_module \<Rightarrow> dce_module" where
  "DeadCodeElimination m =
     (let reached = mark m (roots m) []
      in m\<lparr>definitions := filter (\<lambda>(s, refs). s \<in> set reached) (definitions m)\<rparr>)"

text \<open>
  Modelled from the spec: the pass Dead-Code Elimination is missing from the sources.
  Here: the relation "refers to" whose transitive closure is the
  reachability that the claim speaks of.
\<close>

definition refers :: "dce_module \<Rightarrow> (symbol \<times> symbol) set" where
  "refers m = {(a, b). b \<in> set (references m a)}"

text \<open>
  The invariant of \<open>mark\<close>: what a reached symbol refers to is reached or waits in
  the work list.
\<close>

definition closed_upto :: "dce_module \<Rightarrow> symbol set \<Rightarrow> symbol set \<Rightarrow> bool" where
  "closed_upto m M W =
     (\<forall>x \<in> M. \<forall>y \<in> set (references m x). y \<in> defined m \<longrightarrow> y \<in> M \<union> W)"

section \<open>Interface Lowering\<close>

text \<open>
  The pass (section 4.2 of the specification) is not among the source files covered
  here; the definitions of this section are written from the specification.
\<close>

type_synonym method_name = string

text \<open>
  Modelled from the spec: the pass Interface Lowering is missing from the sources.
  Here: a call site "invoke method M dynamically on interface value
  V": the method, and whether the call
  is provably made on a nil interface value.
\<close>

record call_site =
  callee :: method_name
  receiver_nil :: bool

text \<open>
  Modelled from the spec: the pass Interface Lowering is missing from the sources.
  Here: what a call site is rewritten to: a direct call, a linear
  chain of type-id comparisons, a lookup in the dispatch table of the method followed
  by an indirect call, or an explicit trap.
\<close>

datatype lowered_call =
    DirectCall symbol
  | ComparisonChain "(nat \<times> symbol) list"
  | TableCall method_name
  | TrapCall

text \<open>
  Modelled from the spec: the pass Interface Lowering is missing from the sources.
  Here: the Module as Interface Lowering sees it: the concrete types
  in declaration order, the Interface Method Table (for a method, its pairs of a
  concrete type and an implementation function) and the call sites.
\<close>

record il_module =
  type_decls :: "string list"
  implementations :: "(method_name \<times> (string \<times> symbol) list) list"
  call_sites :: "call_site list"

text \<open>
  Modelled from the spec: the pass Interface Lowering is missing from the sources.
  Here: the output of the pass: the rewritten call sites, in the order
  of the input, and the dispatch tables it emits.
\<close>

record lowered_module =
  lowered_calls :: "lowered_call list"
  dispatch_tables :: "(method_name \<times> symbol list) list"

text \<open>
  Modelled from the spec: the pass Interface Lowering is missing from the sources.
  Here: the type id, "assigned in declaration order".
\<close>

definition type_id :: "il_module \<Rightarrow> string \<Rightarrow> nat" where
  "type_id m ty = length (takeWhile (\<lambda>t. t \<noteq> ty) (type_decls m))"

text \<open>
  Modelled from the spec: the pass Interface Lowering is missing from the sources.
  Here: the implementations of a method "ordered by a deterministic
  type-id assignment".
\<close>

definition by_type_id :: "il_module \<Rightarrow> (string \<times> symbol) list \<Rightarrow> (nat \<times> symbol) list" where
  "by_type_id m impls = sort_key fst (map (\<lambda>(ty, f). (type_id m ty, f)) impls)"

text \<open>
  Modelled from the spec: the pass Interface Lowering is missing from the sources.
  Here: the decision for one call site.  A call provably made on a nil
  interface value becomes a trap "rather than any dispatch"; a method whose types are
  not enumerated is an unsupported construct, one without any implementation is
  malformed input; otherwise the number of implementations decides: exactly one, a
  direct call; up to the threshold, a comparison chain; more, the dispatch table.
\<close>

definition lowerCall :: "nat \<Rightarrow> il_module \<Rightarrow> call_site \<Rightarrow> error + lowered_call" where
  "lowerCall threshold m c =
     (if receiver_nil c then Inr TrapCall
      else (case map_of (implementations m) (callee c) of
              None \<Rightarrow> Inl UnsupportedConstruct
            | Some impls \<Rightarrow>
                if impls = [] then Inl MalformedInput
                else if length impls = 1 then Inr (DirectCall (snd (hd impls)))
                else if length impls \<le> threshold then Inr (ComparisonChain (by_type_id m impls))
                else Inr (TableCall (callee c))))"

text \<open>
  Modelled from the spec: the pass Interface Lowering is missing from the sources.
  Here: the call sites in order; the first failure aborts the pass.
\<close>

fun lowerCalls :: "nat \<Rightarrow> il_module \<Rightarrow> call_site list \<Rightarrow> error + lowered_call list" where
  "lowerCalls threshold m [] = Inr []"
| "lowerCalls threshold m (c # cs) =
     (case lowerCall threshold m c of
        Inl err \<Rightarrow> Inl err
      | Inr l \<Rightarrow>
          (case lowerCalls threshold m cs of
             Inl err \<Rightarrow> Inl err
           | Inr ls \<Rightarrow> Inr (l # ls)))"

text \<open>
  Modelled from the spec: the pass Interface Lowering is missing from the sources.
  Here: the "single dispatch table indexed by type id" of a method with
  more implementations than the threshold; a table that no rewritten call uses is not
  emitted.
\<close>

definition tableFor ::
  "nat \<Rightarrow> il_module \<Rightarrow> lowered_call list \<Rightarrow> method_name \<Rightarrow> (method_name \<times> symbol list) list" where
  "tableFor threshold m calls M =
     (case map_of (implementations m) M of
        None \<Rightarrow> []
      | Some impls \<Rightarrow>
          if length impls \<noteq> 1 \<and> threshold < length impls \<and> TableCall M \<in> set calls
          then [(M, map snd (by_type_id m impls))]
          else [])"

text \<open>
  Modelled from the spec: the pass Interface Lowering is missing from the sources.
  Here: the pass.
\<close>

definition InterfaceLowering :: "nat \<Rightarrow> il_module \<Rightarrow> error + lowered_module" where
  "InterfaceLowering threshold m =
     (case lowerCalls threshold m (call_sites m) of
        Inl err \<Rightarrow> Inl err
      | Inr calls \<Rightarrow>
          Inr \<lparr>lowered_calls = calls,
               dispatch_tables =
                 concat (map (tableFor threshold m calls) (remdups (map fst (implementations m))))\<rparr>)"

section \<open>Properties of the fuzzy comparison\<close>

lemma hd_strings_Split: "hd (strings_Split s c) = takeWhile (\<lambda>x. x \<noteq> c) s"
  by (simp add: strings_Split.simps)

lemma filterLoop_append: "filterLoop v out lines = out @ filterLoop v [] lines"
proof (induction lines arbitrary: out)
  case Nil
  show ?case by simp
next
  case (Cons line rest)
  have step: "\<And>l. filterLoop v (out @ [l]) rest = out @ filterLoop v [l] rest"
    using Cons.IH [of "out @ [l]" for l] Cons.IH [of "[l]" for l] by simp
  show ?case
    by (simp add: Let_def Cons.IH [of out] step)
qed

lemma filterLoop_amended: "filterLoop v [] lines = amended_filter v lines"
proof (induction lines)
  case Nil
  show ?case by (simp add: amended_filter_def)
next
  case (Cons line rest)
  have tail: "\<And>l. filterLoop v [l] rest = l # amended_filter v rest"
    using filterLoop_append [of v "[l]" rest for l] Cons.IH by simp
  show ?case
    using Cons.IH
    by (simp add: Let_def tail hd_strings_Split amended_filter_def cleanLine_def
        keptLine_def rewriteLine_def)
qed

lemma compareLoop_iff:
  "compareLoop lines2 i lines1 =
     (\<forall>j < length lines1. equal_up_to_align (lines1 ! j) (lines2 ! (i + j)))"
proof (induction lines1 arbitrary: i)
  case Nil
  show ?case by simp
next
  case (Cons line1 rest)
  have split: "\<And>P n. (\<forall>j < Suc n. P j) = (P 0 \<and> (\<forall>j < n. P (Suc j)))"
    by (metis less_Suc_eq_0_disj)
  show ?case
    by (simp add: Let_def Cons.IH split equal_up_to_align_def)
qed

lemma fuzzyEqualIR_lines:
  assumes "filterIrrelevantIRLines ver (strings_Split s1 newline) = Inr lines1"
      and "filterIrrelevantIRLines ver (strings_Split s2 newline) = Inr lines2"
  shows "fuzzyEqualIR ver s1 s2 =
           Inr (length lines1 = length lines2 \<and>
                (\<forall>i < length lines1. equal_up_to_align (lines1 ! i) (lines2 ! i)))"
  using assms by (simp add: fuzzyEqualIR_def compareLoop_iff)

text \<open>
  The model of \<open>alignRegexp\<close> against the pattern: a line matches exactly when it is
  some text followed by \<open>", align "\<close> and a non-empty run of decimal digits, and the
  replacement leaves that text.
\<close>

lemma not_isDigit_space: "\<not> isDigit CHR '' ''"
  by (simp add: isDigit_def)

lemma align_rev_parts:
  assumes "list_all isDigit ds"
  shows "takeWhile isDigit (rev (p @ '', align '' @ ds)) = rev ds"
    and "dropWhile isDigit (rev (p @ '', align '' @ ds)) = rev '', align '' @ rev p"
proof -
  have all: "\<forall>x \<in> set (rev ds). isDigit x"
    using assms by (simp add: list_all_iff)
  define tl8 where "tl8 = rev '', align'' @ rev p"
  have r: "rev (p @ '', align '' @ ds) = rev ds @ (CHR '' '' # tl8)"
    by (simp add: tl8_def)
  have r2: "rev '', align '' @ rev p = CHR '' '' # tl8"
    by (simp add: tl8_def)
  have "takeWhile isDigit (rev ds @ (CHR '' '' # tl8)) = rev ds @ takeWhile isDigit (CHR '' '' # tl8)"
    by (rule takeWhile_append2) (use all in blast)
  then show "takeWhile isDigit (rev (p @ '', align '' @ ds)) = rev ds"
    unfolding r using not_isDigit_space by simp
  have "dropWhile isDigit (rev ds @ (CHR '' '' # tl8)) = dropWhile isDigit (CHR '' '' # tl8)"
    by (rule dropWhile_append2) (use all in blast)
  then show "dropWhile isDigit (rev (p @ '', align '' @ ds)) = rev '', align '' @ rev p"
    unfolding r r2 using not_isDigit_space by simp
qed

lemma alignRegexp_MatchString_append:
  "ds \<noteq> [] \<Longrightarrow> list_all isDigit ds \<Longrightarrow> alignRegexp_MatchString (p @ '', align '' @ ds)"
proof -
  assume ne: "ds \<noteq> []" and d: "list_all isDigit ds"
  have "take 8 (rev '', align '' @ rev p) = rev '', align ''"
    by simp
  then show ?thesis
    unfolding alignRegexp_MatchString_def Let_def align_rev_parts [OF d]
    using ne by simp
qed

lemma alignRegexp_ReplaceAllString_append:
  "ds \<noteq> [] \<Longrightarrow> list_all isDigit ds \<Longrightarrow> alignRegexp_ReplaceAllString (p @ '', align '' @ ds) = p"
proof -
  assume ne: "ds \<noteq> []" and d: "list_all isDigit ds"
  have "drop 8 (rev '', align '' @ rev p) = rev p"
    by simp
  then show ?thesis
    unfolding alignRegexp_ReplaceAllString_def align_rev_parts [OF d]
    using alignRegexp_MatchString_append [OF ne d] by simp
qed

lemma alignRegexp_MatchString_iff:
  "alignRegexp_MatchString l \<longleftrightarrow>
     (\<exists>p ds. l = p @ '', align '' @ ds \<and> ds \<noteq> [] \<and> list_all isDigit ds)"
proof
  assume m: "alignRegexp_MatchString l"
  let ?r = "rev l"
  let ?ds = "rev (takeWhile isDigit ?r)"
  let ?rest = "dropWhile isDigit ?r"
  from m have ne: "?ds \<noteq> []" and t: "take 8 ?rest = rev '', align ''"
    by (simp_all add: alignRegexp_MatchString_def Let_def)
  have "?r = takeWhile isDigit ?r @ take 8 ?rest @ drop 8 ?rest"
    by simp
  then have "rev ?r = rev (drop 8 ?rest) @ rev (take 8 ?rest) @ ?ds"
    by (metis append.assoc rev_append)
  then have "l = rev (drop 8 ?rest) @ '', align '' @ ?ds"
    using t by simp
  moreover have "list_all isDigit ?ds"
    by (simp add: list_all_iff) (metis set_takeWhileD)
  ultimately show "\<exists>p ds. l = p @ '', align '' @ ds \<and> ds \<noteq> [] \<and> list_all isDigit ds"
    using ne by blast
next
  assume "\<exists>p ds. l = p @ '', align '' @ ds \<and> ds \<noteq> [] \<and> list_all isDigit ds"
  then show "alignRegexp_MatchString l"
    using alignRegexp_MatchString_append by blast
qed

text \<open>The equations that evaluate the model on concrete strings.\<close>

lemmas eval_defs = llvmVersion_def strings_Split.simps strconv_Atoi_def isDigit_def
  decimalValue_def digitVal_def strings_TrimRight_def strings_HasPrefix_def newline_def
  carriage_return_def alignRegexp_MatchString_def alignRegexp_ReplaceAllString_def

lemma filterIrrelevantIRLines_amended:
  "llvmVersion ver = Inr v \<Longrightarrow> filterIrrelevantIRLines ver lines = Inr (amended_filter v lines)"
  by (simp add: filterIrrelevantIRLines_def filterLoop_amended)

lemma equal_up_to_align_sym: "equal_up_to_align a b = equal_up_to_align b a"
  by (auto simp: equal_up_to_align_def)

lemma equal_up_to_align_refl: "equal_up_to_align a a"
  by (simp add: equal_up_to_align_def)

text \<open>
  Claim C1, as amended.  Provided the major version of LLVM parses (otherwise the filter
  panics), \<open>fuzzyEqualIR s1 s2\<close> is true exactly when the two filtered line sequences
  have the same length and corresponding lines are equal up to the alignment rule, where
  the filter drops the comment text of each line (everything from the first \<open>;\<close>) and
  then its trailing spaces and carriage returns, drops the lines that are empty after
  that, drops the lines that begin with \<open>source_filename = \<close> and, for an LLVM major
  version below 10, also drops the lines that begin with \<open>attributes \<close> and removes
  the numbered parameters from the lines that begin with \<open>define \<close>.  In particular
  \<open>add i32 1, 2 ; comment\<close> compares equal to \<open>add i32 1, 2\<close>.
\<close>

theorem fuzzyEqualIR_filtered_lines:
  assumes "llvmVersion ver = Inr v"
  shows "fuzzyEqualIR ver s1 s2 = Inr (amended_fuzzyEqual v s1 s2) \<and>
         fuzzyEqualIR ver ''add i32 1, 2 ; comment'' ''add i32 1, 2'' = Inr True"
proof -
  have gen: "fuzzyEqualIR ver a b = Inr (amended_fuzzyEqual v a b)" for a b
    using fuzzyEqualIR_lines [OF filterIrrelevantIRLines_amended [OF assms]
        filterIrrelevantIRLines_amended [OF assms], of a b]
    by (simp add: amended_fuzzyEqual_def Let_def)
  have ex: "amended_fuzzyEqual v ''add i32 1, 2 ; comment'' ''add i32 1, 2''"
    by (simp add: amended_fuzzyEqual_def amended_filter_def cleanLine_def keptLine_def
        rewriteLine_def equal_up_to_align_def eval_defs)
  show ?thesis using gen ex by simp
qed

theorem fuzzyEqualIR_filtered_lines_witness:
  "llvmVersion ''11.0.0'' = Inr 11 \<and>
   fuzzyEqualIR ''11.0.0''
     (''source_filename = a.go'' @ [newline] @ [newline] @ ''  ret void, align 4 ; done'')
     ''  ret void'' = Inr True"
proof -
  have h: "llvmVersion ''11.0.0'' = Inr 11"
    by (simp add: eval_defs)
  have "amended_fuzzyEqual 11
     (''source_filename = a.go'' @ [newline] @ [newline] @ ''  ret void, align 4 ; done'')
     ''  ret void''"
    by (simp add: amended_fuzzyEqual_def amended_filter_def cleanLine_def keptLine_def
        rewriteLine_def equal_up_to_align_def eval_defs)
  then show ?thesis
    using h fuzzyEqualIR_filtered_lines [OF h] by simp
qed

text \<open>
  Claim C1 as it is stated names a filter that removes comment text, blank lines and
  \<open>source_filename\<close> lines only.  The code also removes trailing spaces: the line
  \<open>a\<close> followed by a space compares equal to the line \<open>a\<close>, although the two
  differ after the filter of the claim.
\<close>

theorem spec_filter_counterexample:
  "fuzzyEqualIR ''11.0.0'' ''a '' ''a'' = Inr True \<and> \<not> spec_fuzzyEqual ''a '' ''a''"
  by (simp add: fuzzyEqualIR_def filterIrrelevantIRLines_def spec_fuzzyEqual_def
      spec_filter_def blankLine_def eval_defs equal_up_to_align_def)

text \<open>
  Claim C2.  When exactly one of two corresponding lines ends with \<open>, align N\<close>, the
  loop of \<open>fuzzyEqualIR\<close> tests the two lines with the annotation removed from both;
  so a line \<open>l\<close> without the annotation and the same line followed by
  \<open>, align N\<close> compare equal, whichever side carries the annotation, and two IR
  strings whose filtered lines differ at most by such an annotation on one side
  compare equal.
\<close>

theorem alignRegexp_one_sided_stripped:
  "(alignRegexp_MatchString line1 \<noteq> alignRegexp_MatchString (lines2 ! i) \<longrightarrow>
      compareLoop lines2 i (line1 # rest) =
        (alignRegexp_ReplaceAllString line1 = alignRegexp_ReplaceAllString (lines2 ! i) \<and>
         compareLoop lines2 (Suc i) rest)) \<and>
   (ds \<noteq> [] \<and> list_all isDigit ds \<and> \<not> alignRegexp_MatchString l \<longrightarrow>
      alignRegexp_MatchString (l @ '', align '' @ ds) \<and>
      alignRegexp_ReplaceAllString (l @ '', align '' @ ds) = alignRegexp_ReplaceAllString l \<and>
      compareLoop [l @ '', align '' @ ds] 0 [l] \<and>
      compareLoop [l] 0 [l @ '', align '' @ ds]) \<and>
   (filterIrrelevantIRLines ver (strings_Split s1 newline) = Inr lines1 \<and>
    filterIrrelevantIRLines ver (strings_Split s2 newline) = Inr lines2' \<and>
    length lines1 = length lines2' \<and>
    (\<forall>j < length lines1.
        lines1 ! j = lines2' ! j \<or>
        (\<exists>n. n \<noteq> [] \<and> list_all isDigit n \<and>
           (\<not> alignRegexp_MatchString (lines2' ! j) \<and> lines1 ! j = lines2' ! j @ '', align '' @ n \<or>
            \<not> alignRegexp_MatchString (lines1 ! j) \<and> lines2' ! j = lines1 ! j @ '', align '' @ n))) \<longrightarrow>
      fuzzyEqualIR ver s1 s2 = Inr True)"
proof (intro conjI impI)
  assume "alignRegexp_MatchString line1 \<noteq> alignRegexp_MatchString (lines2 ! i)"
  then show "compareLoop lines2 i (line1 # rest) =
        (alignRegexp_ReplaceAllString line1 = alignRegexp_ReplaceAllString (lines2 ! i) \<and>
         compareLoop lines2 (Suc i) rest)"
    by (simp add: Let_def)
next
  assume a: "ds \<noteq> [] \<and> list_all isDigit ds \<and> \<not> alignRegexp_MatchString l"
  then have m: "alignRegexp_MatchString (l @ '', align '' @ ds)"
    using alignRegexp_MatchString_append by blast
  have r: "alignRegexp_ReplaceAllString (l @ '', align '' @ ds) = l"
    using a alignRegexp_ReplaceAllString_append by blast
  have r': "alignRegexp_ReplaceAllString l = l"
    using a by (simp add: alignRegexp_ReplaceAllString_def)
  show "alignRegexp_MatchString (l @ '', align '' @ ds)" by (rule m)
  show "alignRegexp_ReplaceAllString (l @ '', align '' @ ds) = alignRegexp_ReplaceAllString l"
    using r r' by simp
  have e: "equal_up_to_align l (l @ '', align '' @ ds)"
    unfolding equal_up_to_align_def using a m r r' by simp
  show "compareLoop [l @ '', align '' @ ds] 0 [l]"
    using e by (simp add: compareLoop_iff)
  show "compareLoop [l] 0 [l @ '', align '' @ ds]"
    using e by (simp add: compareLoop_iff equal_up_to_align_sym)
next
  assume a: "filterIrrelevantIRLines ver (strings_Split s1 newline) = Inr lines1 \<and>
    filterIrrelevantIRLines ver (strings_Split s2 newline) = Inr lines2' \<and>
    length lines1 = length lines2' \<and>
    (\<forall>j < length lines1.
        lines1 ! j = lines2' ! j \<or>
        (\<exists>n. n \<noteq> [] \<and> list_all isDigit n \<and>
           (\<not> alignRegexp_MatchString (lines2' ! j) \<and> lines1 ! j = lines2' ! j @ '', align '' @ n \<or>
            \<not> alignRegexp_MatchString (lines1 ! j) \<and> lines2' ! j = lines1 ! j @ '', align '' @ n)))"
  have one: "equal_up_to_align (x @ '', align '' @ n) x"
    if "n \<noteq> []" "list_all isDigit n" "\<not> alignRegexp_MatchString x" for x n
    unfolding equal_up_to_align_def
    using that alignRegexp_MatchString_append [of n x] alignRegexp_ReplaceAllString_append [of n x]
    by (simp add: alignRegexp_ReplaceAllString_def)
  have "equal_up_to_align (lines1 ! j) (lines2' ! j)" if "j < length lines1" for j
  proof -
    from a that consider "lines1 ! j = lines2' ! j"
      | n where "n \<noteq> []" "list_all isDigit n" "\<not> alignRegexp_MatchString (lines2' ! j)"
          "lines1 ! j = lines2' ! j @ '', align '' @ n"
      | n where "n \<noteq> []" "list_all isDigit n" "\<not> alignRegexp_MatchString (lines1 ! j)"
          "lines2' ! j = lines1 ! j @ '', align '' @ n"
      by blast
    then show ?thesis
    proof cases
      case 1
      then show ?thesis by (simp add: equal_up_to_align_refl)
    next
      case 2
      then show ?thesis using one by simp
    next
      case 3
      then show ?thesis using one equal_up_to_align_sym by metis
    qed
  qed
  then show "fuzzyEqualIR ver s1 s2 = Inr True"
    using a fuzzyEqualIR_lines [of ver s1 lines1 s2 lines2'] by simp
qed

theorem alignRegexp_one_sided_stripped_witness:
  "alignRegexp_MatchString ''store i8 0, i8* %p, align 1'' \<and>
   \<not> alignRegexp_MatchString ''store i8 0, i8* %p'' \<and>
   alignRegexp_ReplaceAllString ''store i8 0, i8* %p, align 1'' = ''store i8 0, i8* %p'' \<and>
   compareLoop [''store i8 0, i8* %p, align 1'', ''ret void''] 0 [''store i8 0, i8* %p'', ''ret void''] \<and>
   compareLoop [''store i8 0, i8* %p'' @ '', align '' @ ''16''] 0 [''store i8 0, i8* %p''] \<and>
   fuzzyEqualIR ''11.0.0'' (''store i8 0, i8* %p, align 1'' @ [newline] @ ''ret void'')
     (''store i8 0, i8* %p'' @ [newline] @ ''ret void'') = Inr True"
proof -
  have n: "\<not> alignRegexp_MatchString ''store i8 0, i8* %p''"
    by (simp add: eval_defs)
  have m: "alignRegexp_MatchString ''store i8 0, i8* %p, align 1''"
    by (simp add: eval_defs)
  have d: "''16'' \<noteq> [] \<and> list_all isDigit ''16'' \<and> \<not> alignRegexp_MatchString ''store i8 0, i8* %p''"
    using n by (simp add: isDigit_def)
  have ne: "alignRegexp_MatchString ''store i8 0, i8* %p'' \<noteq>
      alignRegexp_MatchString ([''store i8 0, i8* %p, align 1'', ''ret void''] ! 0)"
    using n m by simp
  have r: "alignRegexp_ReplaceAllString ''store i8 0, i8* %p, align 1'' = ''store i8 0, i8* %p''"
    by (simp add: eval_defs)
  have r': "alignRegexp_ReplaceAllString ''store i8 0, i8* %p'' = ''store i8 0, i8* %p''"
    by (simp add: eval_defs)
  have t: "compareLoop [''store i8 0, i8* %p, align 1'', ''ret void''] (Suc 0) [''ret void'']"
    by (simp add: eval_defs)
  define lines1 where "lines1 = [''store i8 0, i8* %p'' @ '', align '' @ ''1'', ''ret void'']"
  define lines2 where "lines2 = [''store i8 0, i8* %p'', ''ret void'']"
  have f1: "filterIrrelevantIRLines ''11.0.0''
      (strings_Split (''store i8 0, i8* %p, align 1'' @ [newline] @ ''ret void'') newline) = Inr lines1"
    by (simp add: filterIrrelevantIRLines_def eval_defs lines1_def)
  have f2: "filterIrrelevantIRLines ''11.0.0''
      (strings_Split (''store i8 0, i8* %p'' @ [newline] @ ''ret void'') newline) = Inr lines2"
    by (simp add: filterIrrelevantIRLines_def eval_defs lines2_def)
  have len: "length lines1 = length lines2"
    by (simp add: lines1_def lines2_def)
  have j0: "''1'' \<noteq> [] \<and> list_all isDigit ''1'' \<and> \<not> alignRegexp_MatchString (lines2 ! 0) \<and>
      lines1 ! 0 = lines2 ! 0 @ '', align '' @ ''1''"
    using n by (simp add: lines1_def lines2_def isDigit_def)
  have j1: "lines1 ! 1 = lines2 ! 1"
    by (simp add: lines1_def lines2_def)
  have each: "\<forall>j < length lines1.
        lines1 ! j = lines2 ! j \<or>
        (\<exists>n. n \<noteq> [] \<and> list_all isDigit n \<and>
           (\<not> alignRegexp_MatchString (lines2 ! j) \<and> lines1 ! j = lines2 ! j @ '', align '' @ n \<or>
            \<not> alignRegexp_MatchString (lines1 ! j) \<and> lines2 ! j = lines1 ! j @ '', align '' @ n))"
  proof (intro allI impI)
    fix j
    assume "j < length lines1"
    then have "j = 0 \<or> j = 1"
      by (auto simp: lines1_def)
    then show "lines1 ! j = lines2 ! j \<or>
        (\<exists>n. n \<noteq> [] \<and> list_all isDigit n \<and>
           (\<not> alignRegexp_MatchString (lines2 ! j) \<and> lines1 ! j = lines2 ! j @ '', align '' @ n \<or>
            \<not> alignRegexp_MatchString (lines1 ! j) \<and> lines2 ! j = lines1 ! j @ '', align '' @ n))"
      using j0 j1 by blast
  qed
  note T = alignRegexp_one_sided_stripped
    [of "''store i8 0, i8* %p''" "[''store i8 0, i8* %p, align 1'', ''ret void'']" 0
        "[''ret void'']" "''16''" "''store i8 0, i8* %p''" "''11.0.0''"
        "''store i8 0, i8* %p, align 1'' @ [newline] @ ''ret void''" lines1
        "''store i8 0, i8* %p'' @ [newline] @ ''ret void''" lines2]
  have "compareLoop [''store i8 0, i8* %p, align 1'', ''ret void''] 0 [''store i8 0, i8* %p'', ''ret void''] \<and>
        compareLoop [''store i8 0, i8* %p'' @ '', align '' @ ''16''] 0 [''store i8 0, i8* %p'']"
    using T ne d r r' t by (simp del: compareLoop.simps)
  moreover have "fuzzyEqualIR ''11.0.0'' (''store i8 0, i8* %p, align 1'' @ [newline] @ ''ret void'')
     (''store i8 0, i8* %p'' @ [newline] @ ''ret void'') = Inr True"
    using T f1 f2 len each by blast
  ultimately show ?thesis using n m r by blast
qed

text \<open>
  Claim C8.  The fuzzy comparison is symmetric, and it is reflexive: every IR string
  compares equal to itself (the major version of LLVM being a number, as it is in every
  build; otherwise the comparison panics on any input).
\<close>

theorem fuzzyEqualIR_symmetric_reflexive:
  "fuzzyEqualIR ver s1 s2 = fuzzyEqualIR ver s2 s1 \<and>
   (llvmVersion ver = Inr v \<longrightarrow> fuzzyEqualIR ver s s = Inr True)"
proof (intro conjI impI)
  show "fuzzyEqualIR ver s1 s2 = fuzzyEqualIR ver s2 s1"
  proof (cases "llvmVersion ver")
    case (Inl err)
    then show ?thesis
      by (simp add: fuzzyEqualIR_def filterIrrelevantIRLines_def)
  next
    case (Inr n)
    have "amended_fuzzyEqual n s1 s2 = amended_fuzzyEqual n s2 s1"
      unfolding amended_fuzzyEqual_def Let_def
      using equal_up_to_align_sym by auto
    then show ?thesis
      using fuzzyEqualIR_lines [OF filterIrrelevantIRLines_amended [OF Inr]
          filterIrrelevantIRLines_amended [OF Inr], of s1 s2]
        fuzzyEqualIR_lines [OF filterIrrelevantIRLines_amended [OF Inr]
          filterIrrelevantIRLines_amended [OF Inr], of s2 s1]
      by (simp add: amended_fuzzyEqual_def Let_def)
  qed
next
  assume v: "llvmVersion ver = Inr v"
  show "fuzzyEqualIR ver s s = Inr True"
    using fuzzyEqualIR_lines [OF filterIrrelevantIRLines_amended [OF v]
        filterIrrelevantIRLines_amended [OF v], of s s]
    by (simp add: equal_up_to_align_refl)
qed

theorem fuzzyEqualIR_symmetric_reflexive_witness:
  "fuzzyEqualIR ''11.0.0'' ''a, align 4'' ''a'' = fuzzyEqualIR ''11.0.0'' ''a'' ''a, align 4'' \<and>
   llvmVersion ''11.0.0'' = Inr 11 \<and>
   fuzzyEqualIR ''11.0.0'' ''ret void ; x'' ''ret void ; x'' = Inr True"
proof -
  have h: "llvmVersion ''11.0.0'' = Inr 11"
    by (simp add: eval_defs)
  show ?thesis
    using h fuzzyEqualIR_symmetric_reflexive [of "''11.0.0''" "''a, align 4''" "''a''" 11 "''ret void ; x''"]
    by blast
qed

text \<open>
  Claim C9.  When both of two corresponding lines end with \<open>, align N\<close>, nothing is
  removed and the loop tests the lines as they are; so when some pair of corresponding
  filtered lines is the same text followed by two different alignment values,
  \<open>fuzzyEqualIR\<close> returns false.
\<close>

theorem alignRegexp_both_sides_kept:
  "(alignRegexp_MatchString line1 \<and> alignRegexp_MatchString (lines2 ! i) \<longrightarrow>
      compareLoop lines2 i (line1 # rest) = (line1 = lines2 ! i \<and> compareLoop lines2 (Suc i) rest)) \<and>
   (filterIrrelevantIRLines ver (strings_Split s1 newline) = Inr lines1 \<and>
    filterIrrelevantIRLines ver (strings_Split s2 newline) = Inr lines2' \<and>
    k < length lines1 \<and> lines1 ! k = p @ '', align '' @ d1 \<and> lines2' ! k = p @ '', align '' @ d2 \<and>
    d1 \<noteq> [] \<and> list_all isDigit d1 \<and> d2 \<noteq> [] \<and> list_all isDigit d2 \<and> d1 \<noteq> d2 \<longrightarrow>
      fuzzyEqualIR ver s1 s2 = Inr False)"
proof (intro conjI impI)
  assume "alignRegexp_MatchString line1 \<and> alignRegexp_MatchString (lines2 ! i)"
  then show "compareLoop lines2 i (line1 # rest) = (line1 = lines2 ! i \<and> compareLoop lines2 (Suc i) rest)"
    by (auto simp: Let_def)
next
  assume a: "filterIrrelevantIRLines ver (strings_Split s1 newline) = Inr lines1 \<and>
    filterIrrelevantIRLines ver (strings_Split s2 newline) = Inr lines2' \<and>
    k < length lines1 \<and> lines1 ! k = p @ '', align '' @ d1 \<and> lines2' ! k = p @ '', align '' @ d2 \<and>
    d1 \<noteq> [] \<and> list_all isDigit d1 \<and> d2 \<noteq> [] \<and> list_all isDigit d2 \<and> d1 \<noteq> d2"
  then have m1: "alignRegexp_MatchString (lines1 ! k)" and m2: "alignRegexp_MatchString (lines2' ! k)"
    using alignRegexp_MatchString_append by simp_all
  from a have "lines1 ! k \<noteq> lines2' ! k" by simp
  with m1 m2 have "\<not> equal_up_to_align (lines1 ! k) (lines2' ! k)"
    by (simp add: equal_up_to_align_def)
  with a have "\<not> (\<forall>i < length lines1. equal_up_to_align (lines1 ! i) (lines2' ! i))"
    by blast
  then show "fuzzyEqualIR ver s1 s2 = Inr False"
    using a fuzzyEqualIR_lines [of ver s1 lines1 s2 lines2'] by simp
qed

theorem alignRegexp_both_sides_kept_witness:
  "fuzzyEqualIR ''11.0.0'' (''ret void'' @ [newline] @ ''%x = load i32, i32* %p, align 4'')
      (''ret void'' @ [newline] @ ''%x = load i32, i32* %p, align 8'') = Inr False"
proof -
  have f1: "filterIrrelevantIRLines ''11.0.0''
      (strings_Split (''ret void'' @ [newline] @ ''%x = load i32, i32* %p, align 4'') newline) =
      Inr [''ret void'', ''%x = load i32, i32* %p'' @ '', align '' @ ''4'']"
    by (simp add: filterIrrelevantIRLines_def eval_defs)
  have f2: "filterIrrelevantIRLines ''11.0.0''
      (strings_Split (''ret void'' @ [newline] @ ''%x = load i32, i32* %p, align 8'') newline) =
      Inr [''ret void'', ''%x = load i32, i32* %p'' @ '', align '' @ ''8'']"
    by (simp add: filterIrrelevantIRLines_def eval_defs)
  have d: "''4'' \<noteq> [] \<and> list_all isDigit ''4'' \<and> ''8'' \<noteq> [] \<and> list_all isDigit ''8'' \<and> ''4'' \<noteq> ''8''"
    by (simp add: isDigit_def)
  have k: "Suc 0 < length [''ret void'', ''%x = load i32, i32* %p'' @ '', align '' @ ''4'']"
    by simp
  show ?thesis
    using alignRegexp_both_sides_kept
      [of "''x''" "[''x'']" 0 "[]" "''11.0.0''"
        "''ret void'' @ [newline] @ ''%x = load i32, i32* %p, align 4''"
        "[''ret void'', ''%x = load i32, i32* %p'' @ '', align '' @ ''4'']"
        "''ret void'' @ [newline] @ ''%x = load i32, i32* %p, align 8''"
        "[''ret void'', ''%x = load i32, i32* %p'' @ '', align '' @ ''8'']"
        "Suc 0" "''%x = load i32, i32* %p''" "''4''" "''8''"]
      f1 f2 d k
    by simp
qed

section \<open>Properties of the golden test harness\<close>

text \<open>
  The definitions that unfold the harness.
\<close>

lemmas harness_defs = testTransform_def ioutil_ReadFile_def ioutil_WriteFile_def
  t_Fatalf_def t_Error_def t_Fail_def t_Logf_def

text \<open>
  Claim C3, as amended.  The harness reads its input fixture from the file
  \<open>pathPrefix.ll\<close> and, when it compares, its expected output from the file
  \<open>pathPrefix.out.ll\<close>: when the first cannot be read the test stops with the
  message naming it, when the second cannot be read the test stops with the message
  naming that one, and the outcome of a comparing run is the same on any two file
  systems that agree on these two files.
\<close>

theorem testTransform_fixture_paths:
  "(read_file fs (p @ ''.ll'') = Inl e \<longrightarrow>
      testTransform update ver parseIR modString fs t p tr =
        (t_Fatalf t (CouldNotReadFile (p @ ''.ll'') e), fs)) \<and>
   (read_file fs (p @ ''.ll'') = Inr src \<and> parseIR src = Inr m \<and>
    read_file fs (p @ ''.out.ll'') = Inl e \<longrightarrow>
      testTransform False ver parseIR modString fs t p tr =
        (t_Fatalf t (CouldNotReadOutputFile (p @ ''.out.ll'') e), fs)) \<and>
   (read_file fs1 (p @ ''.ll'') = read_file fs2 (p @ ''.ll'') \<and>
    read_file fs1 (p @ ''.out.ll'') = read_file fs2 (p @ ''.out.ll'') \<longrightarrow>
      fst (testTransform False ver parseIR modString fs1 t p tr) =
      fst (testTransform False ver parseIR modString fs2 t p tr))"
  by (simp add: harness_defs Let_def split: sum.splits)

theorem testTransform_fixture_paths_witness:
  "fst (testTransform False ''11.0.0'' Inr (\<lambda>m. m)
      \<lparr>read_file = (\<lambda>q. if q = ''add.ll'' then Inr ''ret void'' else Inl ErrNotExist),
       write_error = (\<lambda>q. None)\<rparr>
      \<lparr>failed = False, logged = []\<rparr> ''add'' (\<lambda>m. m)) =
   (FailedNow, \<lparr>failed = True, logged = [CouldNotReadOutputFile ''add.out.ll'' ErrNotExist]\<rparr>)"
  using testTransform_fixture_paths
    [of "\<lparr>read_file = (\<lambda>q. if q = ''add.ll'' then Inr ''ret void'' else Inl ErrNotExist),
          write_error = (\<lambda>q. None)\<rparr>" "''add''" ErrNotExist False "''11.0.0''" Inr "\<lambda>m. m"
        "\<lparr>failed = False, logged = []\<rparr>" "\<lambda>m. m" "''ret void''" "''ret void''"]
  by (simp add: t_Fatalf_def t_Fail_def t_Logf_def)

text \<open>
  Claim C3 as it is stated has the fixtures in \<open>name.in\<close> and \<open>name.out\<close>.
  On a file system that holds exactly these two files the harness stops at once: it
  could not read \<open>name.ll\<close>.
\<close>

theorem testTransform_in_out_counterexample:
  "fst (testTransform False ''11.0.0'' Inr (\<lambda>m. m)
      \<lparr>read_file = (\<lambda>q. if q = ''add.in'' \<or> q = ''add.out'' then Inr ''ret void'' else Inl ErrNotExist),
       write_error = (\<lambda>q. None)\<rparr>
      \<lparr>failed = False, logged = []\<rparr> ''add'' (\<lambda>m. m)) =
   (FailedNow, \<lparr>failed = True, logged = [CouldNotReadFile ''add.ll'' ErrNotExist]\<rparr>)"
  by (simp add: harness_defs)

text \<open>
  Claim C4.  Once the input fixture is read and parsed: with the update flag set, the
  harness writes the actual output (the text of the transformed module from
  \<open>target datalayout = \<close> on) to \<open>pathPrefix.out.ll\<close> and returns without
  having looked at the previous expected output or at the comparison (the result does
  not depend on either; a failed write is reported as a test error); with the flag not
  set, it reads the expected fixture, and the test is marked failed exactly when
  \<open>fuzzyEqualIR\<close> returns false.
\<close>

theorem testTransform_update_flag:
  fixes modString :: "'m \<Rightarrow> string" and tr :: "'m \<Rightarrow> 'm" and m :: 'm and actual :: string
  defines "actual \<equiv>
     drop (nat (strings_Index (modString (tr m)) (newline # ''target datalayout = '') + 1))
       (modString (tr m))"
  assumes "read_file fs (p @ ''.ll'') = Inr src" and "parseIR src = Inr m"
  shows "(write_error fs (p @ ''.out.ll'') = None \<longrightarrow>
            testTransform True ver parseIR modString fs t p tr =
              ((Returned, t), fs\<lparr>read_file := (read_file fs)(p @ ''.out.ll'' := Inr actual)\<rparr>)) \<and>
         (write_error fs (p @ ''.out.ll'') = Some e \<longrightarrow>
            testTransform True ver parseIR modString fs t p tr =
              ((Returned, t_Error t (FailedToWriteOutput e)), fs)) \<and>
         (read_file fs (p @ ''.out.ll'') = Inr expected \<and>
          fuzzyEqualIR ver expected actual = Inr eq \<longrightarrow>
            testTransform False ver parseIR modString fs t p tr =
              ((Returned, if eq then t else t_Fail (t_Logf t (OutputDoesNotMatch actual))), fs) \<and>
            failed (snd (fst (testTransform False ver parseIR modString fs t p tr))) =
              (failed t \<or> \<not> eq))"
  using assms by (simp add: harness_defs Let_def)

theorem testTransform_update_flag_witness:
  "snd (testTransform True ''unknown'' Inr (\<lambda>m. m)
      \<lparr>read_file = (\<lambda>q. if q = ''add.ll''
                          then Inr (''; ModuleID'' @ [newline] @ ''target datalayout = e'' @ [newline] @ ''ret void'')
                          else Inl ErrNotExist),
       write_error = (\<lambda>q. None)\<rparr>
      \<lparr>failed = False, logged = []\<rparr> ''add'' (\<lambda>m. m)) =
     \<lparr>read_file = (\<lambda>q. if q = ''add.ll''
                          then Inr (''; ModuleID'' @ [newline] @ ''target datalayout = e'' @ [newline] @ ''ret void'')
                          else Inl ErrNotExist)
                    (''add.out.ll'' := Inr (''target datalayout = e'' @ [newline] @ ''ret void'')),
      write_error = (\<lambda>q. None)\<rparr> \<and>
   fst (testTransform False ''11.0.0'' Inr (\<lambda>m. m)
      \<lparr>read_file = (\<lambda>q. if q = ''add.ll''
                          then Inr (''; ModuleID'' @ [newline] @ ''target datalayout = e'' @ [newline] @ ''ret void'')
                          else if q = ''add.out.ll'' then Inr ''ret void ; and nothing else''
                          else Inl ErrNotExist),
       write_error = (\<lambda>q. None)\<rparr>
      \<lparr>failed = False, logged = []\<rparr> ''add'' (\<lambda>m. m)) =
     (Returned, \<lparr>failed = True,
        logged = [OutputDoesNotMatch (''target datalayout = e'' @ [newline] @ ''ret void'')]\<rparr>)"
proof -
  define src where "src = ''; ModuleID'' @ [newline] @ ''target datalayout = e'' @ [newline] @ ''ret void''"
  define fs1 where "fs1 = \<lparr>read_file = (\<lambda>q. if q = ''add.ll'' then Inr src else Inl ErrNotExist),
       write_error = (\<lambda>q. None)\<rparr>"
  define fs2 where "fs2 = \<lparr>read_file = (\<lambda>q. if q = ''add.ll'' then Inr src
         else if q = ''add.out.ll'' then Inr ''ret void ; and nothing else'' else Inl ErrNotExist),
       write_error = (\<lambda>q. None)\<rparr>"
  define t0 where "t0 = \<lparr>failed = False, logged = []\<rparr>"
  have actual: "drop (nat (strings_Index src (newline # ''target datalayout = '') + 1)) src =
      ''target datalayout = e'' @ [newline] @ ''ret void''"
    by (simp add: src_def strings_HasPrefix_def newline_def)
  have r1: "read_file fs1 (''add'' @ ''.ll'') = Inr src"
    by (simp add: fs1_def)
  have r2: "read_file fs2 (''add'' @ ''.ll'') = Inr src"
    by (simp add: fs2_def)
  have pr: "(Inr :: string \<Rightarrow> error + string) src = Inr src"
    by simp
  have w: "write_error fs1 (''add'' @ ''.out.ll'') = None"
    by (simp add: fs1_def)
  have e: "read_file fs2 (''add'' @ ''.out.ll'') = Inr ''ret void ; and nothing else''"
    by (simp add: fs2_def)
  have c: "fuzzyEqualIR ''11.0.0'' ''ret void ; and nothing else''
      (''target datalayout = e'' @ [newline] @ ''ret void'') = Inr False"
    by (simp add: fuzzyEqualIR_def filterIrrelevantIRLines_def eval_defs)
  have u: "testTransform True ''unknown'' Inr (\<lambda>m. m) fs1 t0 ''add'' (\<lambda>m. m) =
      ((Returned, t0), fs1\<lparr>read_file := (read_file fs1)(''add'' @ ''.out.ll'' :=
          Inr (''target datalayout = e'' @ [newline] @ ''ret void''))\<rparr>)"
    using testTransform_update_flag [where fs = fs1 and p = "''add''" and src = src
        and parseIR = Inr and m = src and modString = "\<lambda>m. m" and tr = "\<lambda>m. m"
        and ver = "''unknown''" and t = t0, OF r1 pr] w actual
    by simp
  have k: "testTransform False ''11.0.0'' Inr (\<lambda>m. m) fs2 t0 ''add'' (\<lambda>m. m) =
      ((Returned, t_Fail (t_Logf t0 (OutputDoesNotMatch
          (''target datalayout = e'' @ [newline] @ ''ret void'')))), fs2)"
    using testTransform_update_flag [where fs = fs2 and p = "''add''" and src = src
        and parseIR = Inr and m = src and modString = "\<lambda>m. m" and tr = "\<lambda>m. m"
        and ver = "''11.0.0''" and t = t0 and expected = "''ret void ; and nothing else''"
        and eq = False, OF r2 pr] e c actual
    by simp
  show ?thesis
    using u k unfolding fs1_def fs2_def t0_def src_def t_Fail_def t_Logf_def
    by simp
qed

section \<open>Properties of \<open>os.ReadFile\<close>\<close>






lemma initialSize_ge: "512 \<le> initialSize bits st"
  by (simp add: initialSize_def Let_def)





section \<open>Properties of Dead-Code Elimination\<close>

lemma mark_mono: "set marked \<subseteq> set (mark m work marked)"
  by (induction m work marked rule: mark.induct) auto

lemma references_defined: "references m a \<noteq> [] \<Longrightarrow> a \<in> defined m"
proof -
  assume "references m a \<noteq> []"
  then obtain refs where "map_of (definitions m) a = Some refs"
    by (cases "map_of (definitions m) a") (simp_all add: references_def)
  then have "(a, refs) \<in> set (definitions m)"
    by (rule map_of_SomeD)
  then have "fst (a, refs) \<in> fst ` set (definitions m)"
    by (rule imageI)
  then show ?thesis
    by (simp add: defined_def)
qed

lemma mark_sound:
  "x \<in> set (mark m work marked) \<Longrightarrow>
     x \<in> set marked \<or> (\<exists>w \<in> set work. (w, x) \<in> (refers m)\<^sup>*)"
proof (induction m work marked rule: mark.induct)
  case (1 m marked)
  then show ?case by simp
next
  case (2 m s work marked)
  show ?case
  proof (cases "s \<in> set marked \<or> s \<notin> defined m")
    case True
    then show ?thesis using 2 by auto
  next
    case False
    then have "x \<in> set (s # marked) \<or>
        (\<exists>w \<in> set (references m s @ work). (w, x) \<in> (refers m)\<^sup>*)"
      using 2 by simp
    then consider "x = s" | "x \<in> set marked"
      | w where "w \<in> set (references m s)" "(w, x) \<in> (refers m)\<^sup>*"
      | w where "w \<in> set work" "(w, x) \<in> (refers m)\<^sup>*"
      by auto
    then show ?thesis
    proof cases
      case 1
      then show ?thesis by auto
    next
      case 2
      then show ?thesis by simp
    next
      case 3
      then have "(s, w) \<in> refers m" by (simp add: refers_def)
      with 3 have "(s, x) \<in> (refers m)\<^sup>*" by (meson converse_rtrancl_into_rtrancl)
      then show ?thesis by auto
    next
      case 4
      then show ?thesis by auto
    qed
  qed
qed

lemma mark_complete:
  "closed_upto m (set marked) (set work) \<Longrightarrow>
     set work \<inter> defined m \<subseteq> set (mark m work marked) \<and>
     closed_upto m (set (mark m work marked)) {}"
proof (induction m work marked rule: mark.induct)
  case (1 m marked)
  then show ?case by simp
next
  case (2 m s work marked)
  show ?case
  proof (cases "s \<in> set marked \<or> s \<notin> defined m")
    case True
    have "closed_upto m (set marked) (set work)"
      using 2(3) True by (auto simp: closed_upto_def)
    then have "set work \<inter> defined m \<subseteq> set (mark m work marked) \<and>
        closed_upto m (set (mark m work marked)) {}"
      using 2(1) True by blast
    moreover have "s \<in> defined m \<longrightarrow> s \<in> set (mark m work marked)"
      using True mark_mono by blast
    ultimately show ?thesis using True by auto
  next
    case False
    have "closed_upto m (set (s # marked)) (set (references m s @ work))"
      using 2(3) by (auto simp: closed_upto_def)
    then have "set (references m s @ work) \<inter> defined m \<subseteq>
          set (mark m (references m s @ work) (s # marked)) \<and>
        closed_upto m (set (mark m (references m s @ work) (s # marked))) {}"
      using 2(2) False by blast
    moreover have "s \<in> set (mark m (references m s @ work) (s # marked))"
      using mark_mono [of "s # marked" m "references m s @ work"] by auto
    ultimately show ?thesis using False by auto
  qed
qed

lemma mark_reachable:
  assumes "r \<in> set work" and "(r, f) \<in> (refers m)\<^sup>*" and "f \<in> defined m"
  shows "f \<in> set (mark m work [])"
proof -
  have c: "set work \<inter> defined m \<subseteq> set (mark m work [])"
    and cl: "closed_upto m (set (mark m work [])) {}"
    using mark_complete [of m "[]" work] by (simp_all add: closed_upto_def)
  from assms(2) have "f \<in> defined m \<longrightarrow> f \<in> set (mark m work [])"
  proof (induction rule: rtrancl_induct)
    case base
    then show ?case using c assms(1) by auto
  next
    case (step y z)
    from step(2) have "references m y \<noteq> []" by (auto simp: refers_def)
    then have "y \<in> defined m" by (rule references_defined)
    with step(3) have "y \<in> set (mark m work [])" by simp
    with cl step(2) show ?case by (auto simp: closed_upto_def refers_def)
  qed
  with assms(3) show ?thesis by simp
qed

text \<open>
  Claim C7, on the model of the pass written from the specification.  Dead-Code
  Elimination keeps every definition that is reachable from a declared entry point, and
  it removes every symbol that is reachable from no entry point and from no
  implementation in the Interface Method Table.
\<close>

theorem DeadCodeElimination_reachability:
  "((f, body) \<in> set (definitions m) \<and> e \<in> set (entry_points m) \<and> (e, f) \<in> (refers m)\<^sup>* \<longrightarrow>
      (f, body) \<in> set (definitions (DeadCodeElimination m))) \<and>
   ((\<forall>r \<in> set (roots m). (r, f) \<notin> (refers m)\<^sup>*) \<longrightarrow>
      f \<notin> defined (DeadCodeElimination m))"
proof (intro conjI impI)
  assume a: "(f, body) \<in> set (definitions m) \<and> e \<in> set (entry_points m) \<and> (e, f) \<in> (refers m)\<^sup>*"
  then have "fst (f, body) \<in> fst ` set (definitions m)"
    by (intro imageI) simp
  then have "f \<in> defined m"
    by (simp add: defined_def)
  moreover have "e \<in> set (roots m)"
    using a by (simp add: roots_def)
  ultimately have "f \<in> set (mark m (roots m) [])"
    using a mark_reachable by blast
  then show "(f, body) \<in> set (definitions (DeadCodeElimination m))"
    using a by (simp add: DeadCodeElimination_def Let_def)
next
  assume n: "\<forall>r \<in> set (roots m). (r, f) \<notin> (refers m)\<^sup>*"
  have "f \<notin> set (mark m (roots m) [])"
  proof
    assume "f \<in> set (mark m (roots m) [])"
    then have "f \<in> set [] \<or> (\<exists>w \<in> set (roots m). (w, f) \<in> (refers m)\<^sup>*)"
      by (rule mark_sound)
    with n show False by simp
  qed
  then show "f \<notin> defined (DeadCodeElimination m)"
    by (auto simp: DeadCodeElimination_def Let_def defined_def)
qed

theorem DeadCodeElimination_reachability_witness:
  "(''f'', []) \<in> set (definitions (DeadCodeElimination
      \<lparr>definitions = [(''main'', [''f'']), (''f'', []), (''h'', [''f''])],
       entry_points = [''main''], method_table = []\<rparr>)) \<and>
   ''h'' \<notin> defined (DeadCodeElimination
      \<lparr>definitions = [(''main'', [''f'']), (''f'', []), (''h'', [''f''])],
       entry_points = [''main''], method_table = []\<rparr>)"
proof -
  define m where "m = \<lparr>definitions = [(''main'', [''f'']), (''f'', []), (''h'', [''f''])],
       entry_points = [''main''], method_table = []\<rparr>"
  have edge: "(''main'', ''f'') \<in> refers m"
    by (simp add: refers_def references_def m_def)
  have reach: "(''f'', []) \<in> set (definitions m) \<and> ''main'' \<in> set (entry_points m) \<and>
      (''main'', ''f'') \<in> (refers m)\<^sup>*"
    using edge by (simp add: m_def)
  have inv: "x \<in> {''main'', ''f''}" if "(''main'', x) \<in> (refers m)\<^sup>*" for x
    using that
  proof (induction rule: rtrancl_induct)
    case base
    show ?case by simp
  next
    case (step y z)
    then show ?case
      by (auto simp: refers_def references_def m_def)
  qed
  have unreach: "\<forall>r \<in> set (roots m). (r, ''h'') \<notin> (refers m)\<^sup>*"
  proof -
    have "(''main'', ''h'') \<notin> (refers m)\<^sup>*"
      using inv [of "''h''"] by auto
    then show ?thesis by (simp add: roots_def m_def)
  qed
  show ?thesis
    using DeadCodeElimination_reachability [of "''f''" "[]" m "''main''", THEN conjunct1] reach
      DeadCodeElimination_reachability [of "''h''" "[]" m "''main''", THEN conjunct2] unreach
    unfolding m_def by blast
qed

section \<open>Properties of Interface Lowering\<close>

lemma lowerCalls_nth:
  "lowerCalls threshold m cs = Inr ls \<Longrightarrow>
     length ls = length cs \<and> (\<forall>i < length cs. lowerCall threshold m (cs ! i) = Inr (ls ! i))"
proof (induction cs arbitrary: ls)
  case Nil
  then show ?case by simp
next
  case (Cons c cs)
  from Cons.prems obtain l ls' where l: "lowerCall threshold m c = Inr l"
    and ls': "lowerCalls threshold m cs = Inr ls'" and ls: "ls = l # ls'"
    by (auto split: sum.splits)
  have "length ls' = length cs \<and> (\<forall>i < length cs. lowerCall threshold m (cs ! i) = Inr (ls' ! i))"
    using ls' by (rule Cons.IH)
  then show ?case
    using l ls by (auto simp: nth_Cons split: nat.splits)
qed

lemma tableFor_single:
  "map_of (implementations m) M = Some [(ty, f)] \<Longrightarrow> M \<notin> fst ` set (tableFor threshold m calls M')"
  by (cases "M' = M") (auto simp: tableFor_def split: option.splits if_splits)

text \<open>
  Claim C6, as amended, on the model of the pass written from the specification.  When
  Interface Lowering succeeds and a method has exactly one implementation, every call
  site of the method that is not provably made on a nil interface value is rewritten
  into a direct call of that implementation, the call sites provably made on a nil
  interface value are rewritten into a trap, and the output has no dispatch table for
  the method.
\<close>

theorem InterfaceLowering_single_implementation:
  "InterfaceLowering threshold m = Inr out \<and> map_of (implementations m) M = Some [(ty, f)] \<longrightarrow>
     length (lowered_calls out) = length (call_sites m) \<and>
     (\<forall>i < length (call_sites m). callee (call_sites m ! i) = M \<longrightarrow>
        lowered_calls out ! i =
          (if receiver_nil (call_sites m ! i) then TrapCall else DirectCall f)) \<and>
     M \<notin> fst ` set (dispatch_tables out)"
proof (intro impI)
  assume a: "InterfaceLowering threshold m = Inr out \<and> map_of (implementations m) M = Some [(ty, f)]"
  then obtain calls where calls: "lowerCalls threshold m (call_sites m) = Inr calls"
    and out: "out = \<lparr>lowered_calls = calls, dispatch_tables =
        concat (map (tableFor threshold m calls) (remdups (map fst (implementations m))))\<rparr>"
    by (auto simp: InterfaceLowering_def split: sum.splits)
  have n: "length calls = length (call_sites m)"
    and e: "\<forall>i < length (call_sites m). lowerCall threshold m (call_sites m ! i) = Inr (calls ! i)"
    using lowerCalls_nth [OF calls] by simp_all
  have d: "\<forall>i < length (call_sites m). callee (call_sites m ! i) = M \<longrightarrow>
      calls ! i = (if receiver_nil (call_sites m ! i) then TrapCall else DirectCall f)"
  proof (intro allI impI)
    fix i
    assume "i < length (call_sites m)" and "callee (call_sites m ! i) = M"
    then have "Inr (calls ! i) = lowerCall threshold m (call_sites m ! i)"
      and "map_of (implementations m) (callee (call_sites m ! i)) = Some [(ty, f)]"
      using e a by simp_all
    then show "calls ! i = (if receiver_nil (call_sites m ! i) then TrapCall else DirectCall f)"
      by (simp add: lowerCall_def split: if_splits)
  qed
  have t: "M \<notin> fst ` set (dispatch_tables out)"
    using a tableFor_single [of m M ty f threshold calls] by (auto simp: out)
  show "length (lowered_calls out) = length (call_sites m) \<and>
     (\<forall>i < length (call_sites m). callee (call_sites m ! i) = M \<longrightarrow>
        lowered_calls out ! i =
          (if receiver_nil (call_sites m ! i) then TrapCall else DirectCall f)) \<and>
     M \<notin> fst ` set (dispatch_tables out)"
    using n d t by (simp add: out)
qed

text \<open>The definitions that unfold the pass on a concrete module.\<close>

lemmas lowering_defs = InterfaceLowering_def lowerCall_def tableFor_def by_type_id_def type_id_def

text \<open>
  Claim C6 as it is stated has every call site of such a method rewritten into a direct
  call.  A call site provably made on a nil interface value is rewritten into a trap,
  also when the method has one implementation.
\<close>

theorem InterfaceLowering_nil_call_counterexample:
  "InterfaceLowering 4
     \<lparr>type_decls = [''T''], implementations = [(''M'', [(''T'', ''T.M'')])],
      call_sites = [\<lparr>callee = ''M'', receiver_nil = True\<rparr>]\<rparr> =
   Inr \<lparr>lowered_calls = [TrapCall], dispatch_tables = []\<rparr>"
  by (simp add: lowering_defs)

theorem InterfaceLowering_single_implementation_witness:
  "lowered_calls \<lparr>lowered_calls = [DirectCall ''T.M'', TableCall ''N'', TrapCall],
      dispatch_tables = [(''N'', [''T.N'', ''U.N''])]\<rparr> ! 0 = DirectCall ''T.M'' \<and>
   ''M'' \<notin> fst ` set (dispatch_tables \<lparr>lowered_calls = [DirectCall ''T.M'', TableCall ''N'', TrapCall],
      dispatch_tables = [(''N'', [''T.N'', ''U.N''])]\<rparr>) \<and>
   InterfaceLowering 1
     \<lparr>type_decls = [''T'', ''U''],
      implementations = [(''M'', [(''T'', ''T.M'')]), (''N'', [(''U'', ''U.N''), (''T'', ''T.N'')])],
      call_sites = [\<lparr>callee = ''M'', receiver_nil = False\<rparr>, \<lparr>callee = ''N'', receiver_nil = False\<rparr>,
        \<lparr>callee = ''M'', receiver_nil = True\<rparr>]\<rparr> =
   Inr \<lparr>lowered_calls = [DirectCall ''T.M'', TableCall ''N'', TrapCall],
      dispatch_tables = [(''N'', [''T.N'', ''U.N''])]\<rparr>"
proof -
  define m where "m = \<lparr>type_decls = [''T'', ''U''],
      implementations = [(''M'', [(''T'', ''T.M'')]), (''N'', [(''U'', ''U.N''), (''T'', ''T.N'')])],
      call_sites = [\<lparr>callee = ''M'', receiver_nil = False\<rparr>, \<lparr>callee = ''N'', receiver_nil = False\<rparr>,
        \<lparr>callee = ''M'', receiver_nil = True\<rparr>]\<rparr>"
  define out where "out = \<lparr>lowered_calls = [DirectCall ''T.M'', TableCall ''N'', TrapCall],
      dispatch_tables = [(''N'', [''T.N'', ''U.N''])]\<rparr>"
  have run: "InterfaceLowering 1 m = Inr out"
    by (simp add: lowering_defs m_def out_def)
  have one: "map_of (implementations m) ''M'' = Some [(''T'', ''T.M'')]"
    by (simp add: m_def)
  have site: "0 < length (call_sites m) \<and> callee (call_sites m ! 0) = ''M'' \<and>
      \<not> receiver_nil (call_sites m ! 0)"
    by (simp add: m_def)
  have "lowered_calls out ! 0 = DirectCall ''T.M'' \<and> ''M'' \<notin> fst ` set (dispatch_tables out)"
    using InterfaceLowering_single_implementation [of 1 m out "''M''" "''T''" "''T.M''"] run one site
    by (simp del: lowered_module.simps)
  then show ?thesis
    using run unfolding m_def out_def by blast
qed

end
